theory Spec2Isabelle
  imports Main "HOL-Library.Char_ord" "HOL-Library.Multiset"
begin

section \<open>Strings as the appender reads them\<close>

text \<open>
  A \<^verbatim>\<open>std::string\<close> is a \<^typ>\<open>string\<close> (a list of bytes). \<^verbatim>\<open>::isdigit\<close> in the
  C locale and the explicit comparison \<^verbatim>\<open>s[i] >= '0' && s[i] <= '9'\<close> of
  \<^verbatim>\<open>ExtractDigits\<close> accept the same ten characters.
\<close>

definition isdigit :: "char \<Rightarrow> bool" where
  "isdigit c = (CHR ''0'' \<le> c \<and> c \<le> CHR ''9'')"

text \<open>
  \<^verbatim>\<open>s.substr(pos, n)\<close> and \<^verbatim>\<open>s.substr(pos)\<close> at a position the caller has already
  checked to be at most \<^verbatim>\<open>s.size()\<close>.
\<close>

definition substr :: "string \<Rightarrow> nat \<Rightarrow> nat \<Rightarrow> string" where
  "substr s pos n = take n (drop pos s)"

definition substr_from :: "string \<Rightarrow> nat \<Rightarrow> string" where
  "substr_from s pos = drop pos s"

text \<open>\<^verbatim>\<open>std::all_of(s.begin() + a, s.begin() + b, ::isdigit)\<close>, for \<open>b \<le> s.size()\<close>.\<close>

definition all_of_isdigit :: "string \<Rightarrow> nat \<Rightarrow> nat \<Rightarrow> bool" where
  "all_of_isdigit s a b = list_all isdigit (take (b - a) (drop a s))"

section \<open>Suffix recognisers\<close>

text \<open>\<^verbatim>\<open>ExtractDatetimeIso8601\<close>: the empty string is the "no match" result.\<close>

definition ExtractDatetimeIso8601 :: "string \<Rightarrow> string" where
  "ExtractDatetimeIso8601 s =
     (if length s < 17 \<or> s ! 0 \<noteq> CHR ''.'' \<or> \<not> all_of_isdigit s 1 9 then ''''
      else if s ! 9 \<noteq> CHR ''T'' \<or> \<not> all_of_isdigit s 10 16 then ''''
      else
        let end_char = s ! 16 in
        if end_char = CHR ''Z'' then
          (if length s = 17 \<or> (length s > 17 \<and> s ! 17 = CHR ''.'') then substr s 1 16
           else '''')
        else if end_char = CHR ''+'' \<or> end_char = CHR ''-'' then
          (if length s < 21 \<or> \<not> all_of_isdigit s 17 21 then ''''
           else if length s = 21 \<or> (length s > 21 \<and> s ! 21 = CHR ''.'') then substr s 1 20
           else '''')
        else '''')"

text \<open>The scanning loop of \<^verbatim>\<open>ExtractDigits\<close>: advance \<open>i\<close> while \<open>s[i]\<close> is a digit.\<close>

function digits_end :: "string \<Rightarrow> nat \<Rightarrow> nat" where
  "digits_end s i =
     (if i < length s \<and> CHR ''0'' \<le> s ! i \<and> s ! i \<le> CHR ''9'' then digits_end s (i + 1)
      else i)"
  by pat_completeness auto
termination
  by (relation "measure (\<lambda>(s, i). length s - i)") auto

declare digits_end.simps [simp del]

definition ExtractDigits :: "string \<Rightarrow> string" where
  "ExtractDigits s =
     (if length s < 1 \<or> s ! 0 \<noteq> CHR ''.'' then ''''
      else
        let i = digits_end s 1;
            count = int i - 1 in
        if count < 8 then ''''
        else if i \<ge> length s then substr_from s 1
        else if s ! i \<noteq> CHR ''.'' then ''''
        else substr s 1 (i - 1))"

definition ExtractDigits1 :: "string \<Rightarrow> string" where
  "ExtractDigits1 s =
     (if length s \<le> 1 \<or> s ! 0 \<noteq> CHR ''.'' then ''''
      else if list_all isdigit (drop 1 s) then substr_from s 1
      else '''')"

section \<open>The suffix grammars of the specification\<close>

text \<open>
  The ISO-8601 suffix as the specification words it: a dot, eight digits, \<open>T\<close>, six
  digits, then \<open>Z\<close> or a sign and four digits, then nothing or a dot and anything. The
  second argument is the date-time-with-zone portion.
\<close>

definition spec_zone :: "string \<Rightarrow> bool" where
  "spec_zone z = (z = ''Z'' \<or>
     (\<exists>sg ds. z = sg # ds \<and> (sg = CHR ''+'' \<or> sg = CHR ''-'') \<and> length ds = 4 \<and> list_all isdigit ds))"

definition spec_tail :: "string \<Rightarrow> bool" where
  "spec_tail r = (r = [] \<or> (\<exists>r'. r = CHR ''.'' # r'))"

definition spec_iso8601_suffix :: "string \<Rightarrow> string \<Rightarrow> bool" where
  "spec_iso8601_suffix s m =
     (\<exists>d8 d6 z r. s = CHR ''.'' # d8 @ CHR ''T'' # d6 @ z @ r \<and>
        length d8 = 8 \<and> list_all isdigit d8 \<and> length d6 = 6 \<and> list_all isdigit d6 \<and>
        spec_zone z \<and> spec_tail r \<and> m = d8 @ CHR ''T'' # d6 @ z)"

section \<open>Exceptions and numeric conversions\<close>

text \<open>The standard exceptions the appender's helpers throw.\<close>

datatype cpp_exception = invalid_argument | overflow_error | out_of_range | runtime_error

text \<open>
  Signed machine integers are integers with the two's-complement wrap-around written
  out: \<open>wrap_int64\<close> is what a \<^verbatim>\<open>std::int64_t\<close> holds after an arithmetic step whose
  mathematical result is the argument, \<open>wrap_int32\<close> the same for \<^verbatim>\<open>std::int32_t\<close>.
\<close>

definition wrap_int64 :: "int \<Rightarrow> int" where
  "wrap_int64 x = (x + 2 ^ 63) mod 2 ^ 64 - 2 ^ 63"

definition wrap_int32 :: "int \<Rightarrow> int" where
  "wrap_int32 x = (x + 2 ^ 31) mod 2 ^ 32 - 2 ^ 31"

text \<open>The loop of \<^verbatim>\<open>ConvertStrToInt64\<close>: \<^verbatim>\<open>res = res * 10 + (c - '0'); if (res < 0) throw\<close>.\<close>

fun ConvertStrToInt64_loop :: "int \<Rightarrow> string \<Rightarrow> cpp_exception + int" where
  "ConvertStrToInt64_loop res [] = Inr res"
| "ConvertStrToInt64_loop res (c # cs) =
     (let res' = wrap_int64 (res * 10 + (of_char c - of_char (CHR ''0''))) in
      if res' < 0 then Inl overflow_error else ConvertStrToInt64_loop res' cs)"

definition ConvertStrToInt64 :: "string \<Rightarrow> cpp_exception + int" where
  "ConvertStrToInt64 s =
     (if s = [] then Inl invalid_argument
      else if \<not> list_all isdigit s then Inl invalid_argument
      else ConvertStrToInt64_loop 0 s)"

text \<open>The decimal value of a digit string, as mathematics has it.\<close>

definition decimal_value :: "string \<Rightarrow> int" where
  "decimal_value ds = foldl (\<lambda>a c. a * 10 + (of_char c - of_char (CHR ''0''))) 0 ds"

text \<open>
  The C library's number scanning, shared by \<^verbatim>\<open>sscanf("%Nd")\<close> and \<^verbatim>\<open>std::stoi\<close>: skip
  white space, take an optional sign, then digits; the sign counts towards the field
  width. The result is the value and the unread rest, or \<open>None\<close> when no digit was read.
\<close>

definition isspace :: "char \<Rightarrow> bool" where
  "isspace c = (c \<in> set [CHR '' '', CHR 0x09, CHR 0x0A, CHR 0x0B, CHR 0x0C, CHR 0x0D])"

definition scan_int :: "nat option \<Rightarrow> string \<Rightarrow> (int \<times> string) option" where
  "scan_int width s =
     (let s1 = dropWhile isspace s;
          signed = (s1 \<noteq> [] \<and> (hd s1 = CHR ''+'' \<or> hd s1 = CHR ''-''));
          s2 = (if signed then tl s1 else s1);
          w2 = (case width of None \<Rightarrow> length s2 | Some w \<Rightarrow> (if signed then w - 1 else w));
          ds = takeWhile isdigit (take w2 s2)
      in if ds = [] then None
         else Some ((if signed \<and> hd s1 = CHR ''-'' then - decimal_value ds else decimal_value ds),
                    drop (length ds) s2))"

text \<open>\<^verbatim>\<open>std::stoi\<close>: no conversion is \<^verbatim>\<open>invalid_argument\<close>, a value outside \<^verbatim>\<open>int\<close> is
  \<^verbatim>\<open>out_of_range\<close>.\<close>

definition stoi :: "string \<Rightarrow> cpp_exception + int" where
  "stoi s =
     (case scan_int None s of
        None \<Rightarrow> Inl invalid_argument
      | Some (v, rest) \<Rightarrow> if v < - (2 ^ 31) \<or> 2 ^ 31 \<le> v then Inl out_of_range else Inr v)"

text \<open>\<^verbatim>\<open>s.substr(pos, n)\<close> with its range check: \<^verbatim>\<open>pos > size()\<close> throws.\<close>

definition substr_checked :: "string \<Rightarrow> nat \<Rightarrow> nat \<Rightarrow> cpp_exception + string" where
  "substr_checked s pos n = (if pos > length s then Inl out_of_range else Inr (take n (drop pos s)))"

text \<open>\<^verbatim>\<open>s.find_last_of(chars)\<close>: the last position holding one of the characters.\<close>

definition find_last_of :: "string \<Rightarrow> string \<Rightarrow> nat option" where
  "find_last_of s chars =
     (case filter (\<lambda>i. s ! i \<in> set chars) (rev [0..<length s]) of
        [] \<Rightarrow> None
      | i # _ \<Rightarrow> Some i)"

section \<open>Calendar time\<close>

text \<open>The fields of \<^verbatim>\<open>std::tm\<close> the appender reads or writes.\<close>

record tm =
  tm_sec :: int
  tm_min :: int
  tm_hour :: int
  tm_mday :: int
  tm_mon :: int
  tm_year :: int
  tm_gmtoff :: int

text \<open>
  The C library's calendar arithmetic (proleptic Gregorian calendar, no leap seconds):
  \<open>days_from_civil\<close> counts the days from 1970-01-01 to a date, \<open>civil_from_days\<close> is
  its inverse, \<open>timegm\<close> reads broken-down UTC fields (months past December carry into
  the year), \<open>gmtime\<close> produces them.
\<close>

definition days_from_civil :: "int \<Rightarrow> int \<Rightarrow> int \<Rightarrow> int" where
  "days_from_civil y m d =
     (let y1 = (if m \<le> 2 then y - 1 else y);
          era = y1 div 400;
          yoe = y1 - era * 400;
          doy = (153 * (if m > 2 then m - 3 else m + 9) + 2) div 5 + d - 1;
          doe = yoe * 365 + yoe div 4 - yoe div 100 + doy
      in era * 146097 + doe - 719468)"

definition civil_from_days :: "int \<Rightarrow> int \<times> int \<times> int" where
  "civil_from_days z0 =
     (let z = z0 + 719468;
          era = z div 146097;
          doe = z - era * 146097;
          yoe = (doe - doe div 1460 + doe div 36524 - doe div 146096) div 365;
          doy = doe - (365 * yoe + yoe div 4 - yoe div 100);
          mp = (5 * doy + 2) div 153;
          d = doy - (153 * mp + 2) div 5 + 1;
          m = (if mp < 10 then mp + 3 else mp - 9);
          y = yoe + era * 400 + (if m \<le> 2 then 1 else 0)
      in (y, m, d))"

definition timegm :: "tm \<Rightarrow> int" where
  "timegm t =
     (let y = tm_year t + 1900 + tm_mon t div 12;
          m = tm_mon t mod 12 + 1
      in (days_from_civil y m 1 + (tm_mday t - 1)) * 86400
           + tm_hour t * 3600 + tm_min t * 60 + tm_sec t)"

definition gmtime :: "int \<Rightarrow> tm" where
  "gmtime t =
     (let days = t div 86400;
          secs = t mod 86400;
          (y, m, d) = civil_from_days days
      in \<lparr>tm_sec = secs mod 60, tm_min = (secs div 60) mod 60, tm_hour = secs div 3600,
          tm_mday = d, tm_mon = m - 1, tm_year = y - 1900, tm_gmtoff = 0\<rparr>)"

text \<open>
  The time zone database is a function from an instant to the UTC offset in force then,
  in seconds; \<open>None\<close> is \<^verbatim>\<open>std::localtime\<close> returning a null pointer.
\<close>

type_synonym zone = "int \<Rightarrow> int option"

definition localtime :: "zone \<Rightarrow> int \<Rightarrow> tm option" where
  "localtime tz t =
     (case tz t of None \<Rightarrow> None | Some off \<Rightarrow> Some ((gmtime (t + off))\<lparr>tm_gmtoff := off\<rparr>))"

text \<open>Decimal output: \<^verbatim>\<open>std::to_string\<close> and the zero-padded two-digit fields of
  \<^verbatim>\<open>strftime\<close>.\<close>

fun nat_digits :: "nat \<Rightarrow> string" where
  "nat_digits n = (if n < 10 then [char_of (48 + n)] else nat_digits (n div 10) @ [char_of (48 + n mod 10)])"

declare nat_digits.simps [simp del]

definition to_string :: "int \<Rightarrow> string" where
  "to_string i = (if i < 0 then CHR ''-'' # nat_digits (nat (- i)) else nat_digits (nat i))"

definition pad2 :: "int \<Rightarrow> string" where
  "pad2 i = (if 0 \<le> i \<and> i < 10 then CHR ''0'' # to_string i else to_string i)"

text \<open>
  \<^verbatim>\<open>strftime(str, 40, "%Y%m%dT%H%M%S%z", &buf)\<close>: the formatted text, or \<open>None\<close> for the
  return value 0 (the text and its terminator do not fit the 40 bytes).
\<close>

definition strftime_iso :: "tm \<Rightarrow> string option" where
  "strftime_iso b =
     (let off = tm_gmtoff b;
          z = (if off < 0 then CHR ''-'' else CHR ''+'') # pad2 (\<bar>off\<bar> div 3600) @ pad2 ((\<bar>off\<bar> div 60) mod 60);
          str = to_string (tm_year b + 1900) @ pad2 (tm_mon b + 1) @ pad2 (tm_mday b) @ ''T''
                  @ pad2 (tm_hour b) @ pad2 (tm_min b) @ pad2 (tm_sec b) @ z
      in if length str < 40 then Some str else None)"

text \<open>\<^verbatim>\<open>RemoveChar\<close> keeps every character but \<open>c\<close>.\<close>

definition RemoveChar :: "string \<Rightarrow> char \<Rightarrow> string" where
  "RemoveChar s c = filter (\<lambda>x. x \<noteq> c) s"

definition ConvertTimeToIso8601 :: "zone \<Rightarrow> int \<Rightarrow> cpp_exception + string" where
  "ConvertTimeToIso8601 tz timer =
     (case localtime tz timer of
        None \<Rightarrow> Inr []
      | Some buf \<Rightarrow>
          (case strftime_iso buf of
             Some str \<Rightarrow> Inr (RemoveChar str (CHR '':''))
           | None \<Rightarrow> Inl runtime_error))"

definition GetDatetimeStr :: "zone \<Rightarrow> int \<Rightarrow> cpp_exception + string" where
  "GetDatetimeStr tz timer =
     (case ConvertTimeToIso8601 tz timer of
        Inl e \<Rightarrow> Inl e
      | Inr datetime_now_str \<Rightarrow>
          if datetime_now_str = [] then Inr (to_string timer) else Inr datetime_now_str)"

section \<open>ISO-8601 decoding\<close>

text \<open>\<^verbatim>\<open>sscanf(s, "%4d%2d%2dT%2d%2d%2d", ...) == 6\<close>, then the two adjustments.\<close>

definition ConvertDatetimeIso8601ToTm :: "string \<Rightarrow> cpp_exception + tm" where
  "ConvertDatetimeIso8601ToTm s =
     (case scan_int (Some 4) s of None \<Rightarrow> Inl invalid_argument | Some (year, s1) \<Rightarrow>
      case scan_int (Some 2) s1 of None \<Rightarrow> Inl invalid_argument | Some (mon, s2) \<Rightarrow>
      case scan_int (Some 2) s2 of None \<Rightarrow> Inl invalid_argument | Some (mday, s3) \<Rightarrow>
      if s3 = [] \<or> hd s3 \<noteq> CHR ''T'' then Inl invalid_argument else
      case scan_int (Some 2) (tl s3) of None \<Rightarrow> Inl invalid_argument | Some (hour, s4) \<Rightarrow>
      case scan_int (Some 2) s4 of None \<Rightarrow> Inl invalid_argument | Some (minute, s5) \<Rightarrow>
      case scan_int (Some 2) s5 of None \<Rightarrow> Inl invalid_argument | Some (sec, s6) \<Rightarrow>
        Inr \<lparr>tm_sec = sec, tm_min = minute, tm_hour = hour, tm_mday = mday,
             tm_mon = mon - 1, tm_year = year - 1900, tm_gmtoff = 0\<rparr>)"

definition ParseTimezoneOffset :: "string \<Rightarrow> cpp_exception + int" where
  "ParseTimezoneOffset s =
     (if CHR ''Z'' \<in> set s then Inr 0
      else case find_last_of s ''+-'' of
        None \<Rightarrow> Inr 0
      | Some pos \<Rightarrow>
          let offsetStr = substr_from s pos in
          case substr_checked offsetStr 1 2 of Inl e \<Rightarrow> Inl e | Inr hs \<Rightarrow>
          case stoi hs of Inl e \<Rightarrow> Inl e | Inr hours \<Rightarrow>
          case substr_checked offsetStr 4 2 of Inl e \<Rightarrow> Inl e | Inr ms \<Rightarrow>
          case stoi ms of Inl e \<Rightarrow> Inl e | Inr minutes \<Rightarrow>
            let offset = hours * 3600 + minutes * 60 in
            Inr (if offsetStr ! 0 = CHR ''-'' then - offset else offset))"

definition ConvertDatetimeIso8601ToTimestamp :: "string \<Rightarrow> cpp_exception + int" where
  "ConvertDatetimeIso8601ToTimestamp s =
     (case ConvertDatetimeIso8601ToTm s of Inl e \<Rightarrow> Inl e | Inr t \<Rightarrow>
      let time = timegm t in
      case ParseTimezoneOffset s of Inl e \<Rightarrow> Inl e | Inr offset \<Rightarrow>
        if CHR ''Z'' \<notin> set s \<and> CHR ''+'' \<notin> set s \<and> CHR ''-'' \<notin> set s then Inr time
        else Inr (time - offset))"

section \<open>The suffix classifier\<close>

text \<open>
  \<^verbatim>\<open>ExtractTimestamp\<close> and \<^verbatim>\<open>ExtractIndex\<close> return \<^verbatim>\<open>true\<close> with a value (\<open>Some\<close>) or
  \<^verbatim>\<open>false\<close> (\<open>None\<close>); a conversion that throws is caught and gives \<^verbatim>\<open>false\<close>.
\<close>

definition ExtractTimestamp :: "string \<Rightarrow> int option" where
  "ExtractTimestamp s =
     (if s = [] then None
      else if ExtractDatetimeIso8601 s \<noteq> [] then
        (case ConvertDatetimeIso8601ToTimestamp (ExtractDatetimeIso8601 s) of
           Inl e \<Rightarrow> None | Inr timestamp \<Rightarrow> Some timestamp)
      else if ExtractDigits s \<noteq> [] then
        (case ConvertStrToInt64 (ExtractDigits s) of
           Inl e \<Rightarrow> None | Inr timestamp \<Rightarrow> Some timestamp)
      else None)"

definition ExtractIndex :: "string \<Rightarrow> int option" where
  "ExtractIndex s =
     (if s = [] then None
      else if ExtractDigits1 s \<noteq> [] then
        (case ConvertStrToInt64 (ExtractDigits1 s) of
           Inl e \<Rightarrow> None | Inr index \<Rightarrow> Some index)
      else None)"

text \<open>
  The classification \<^verbatim>\<open>HandleBackupLogFile\<close> acts on: a timestamp from the ISO-8601
  rule or from the epoch rule, else a legacy index, else nothing.
\<close>

datatype classification = Iso8601 | Epoch | Legacy | Unclassified

definition classify :: "string \<Rightarrow> classification" where
  "classify s =
     (if ExtractTimestamp s \<noteq> None then
        (if ExtractDatetimeIso8601 s \<noteq> [] then Iso8601 else Epoch)
      else if ExtractIndex s \<noteq> None then Legacy
      else Unclassified)"

text \<open>
  The epoch suffix as the specification words it: a dot, at least eight digits, then
  nothing or a dot and anything; the second argument is the digit run. The legacy suffix:
  a dot and one or more digits, with no further segment.
\<close>

definition spec_epoch_suffix :: "string \<Rightarrow> string \<Rightarrow> bool" where
  "spec_epoch_suffix s ds =
     (\<exists>r. s = CHR ''.'' # ds @ r \<and> 8 \<le> length ds \<and> list_all isdigit ds \<and> spec_tail r)"

definition spec_legacy_suffix :: "string \<Rightarrow> string \<Rightarrow> bool" where
  "spec_legacy_suffix s ds = (s = CHR ''.'' # ds \<and> 1 \<le> length ds \<and> list_all isdigit ds)"

section \<open>Retention\<close>

text \<open>
  A backup entry is the pair \<^verbatim>\<open>(timestamp, file_path)\<close>. \<^verbatim>\<open>std::lower_bound\<close> with the
  comparator \<^verbatim>\<open>lhs.first < rhs.first\<close> is the standard library's bisection: \<open>first\<close> and
  \<open>len\<close> delimit the range still searched.
\<close>

type_synonym backup_entry = "int \<times> string"

function std_lower_bound :: "backup_entry list \<Rightarrow> int \<Rightarrow> nat \<Rightarrow> nat \<Rightarrow> nat" where
  "std_lower_bound v val first len =
     (if len > 0 then
        let half = len div 2;
            middle = first + half in
        if fst (v ! middle) < val then std_lower_bound v val (middle + 1) (len - half - 1)
        else std_lower_bound v val first half
      else first)"
  by pat_completeness auto
termination
  by (relation "measure (\<lambda>(v, val, first, len). len)") auto

declare std_lower_bound.simps [simp del]

text \<open>
  The bound computed by \<^verbatim>\<open>rollOver\<close> on the sorted entries: \<open>now\<close> is what
  \<^verbatim>\<open>GetCurrentTimestampInSeconds\<close> returns there. The casts to \<^verbatim>\<open>std::int32_t\<close> and the
  64-bit subtraction are written with their wrap-around.
\<close>

definition retention_lower_bound :: "int \<Rightarrow> int \<Rightarrow> int \<Rightarrow> backup_entry list \<Rightarrow> int" where
  "retention_lower_bound maxBackupCount maxBackupDays now v =
     (let lower_bound0 = 0;
          lower_bound1 =
            (if maxBackupCount \<ge> 0 then
               max lower_bound0 (max 0 (wrap_int32 (wrap_int32 (int (length v)) - maxBackupCount)))
             else lower_bound0)
      in if maxBackupDays \<ge> 0 then
           let threshold = wrap_int64 (now - wrap_int64 (maxBackupDays * 24 * 60 * 60));
               it = std_lower_bound v threshold 0 (length v)
           in if it \<noteq> length v then max lower_bound1 (wrap_int32 (int it))
              else wrap_int32 (int (length v))
         else lower_bound1)"

text \<open>The deletion loop: \<^verbatim>\<open>for (i = 0; i < lower_bound; ++i) unlink(v[i].second)\<close>.\<close>

definition unlink_targets :: "backup_entry list \<Rightarrow> int \<Rightarrow> string list" where
  "unlink_targets v lower_bound = map (\<lambda>i. snd (v ! i)) [0..<nat lower_bound]"



section \<open>The appender and its environment\<close>

text \<open>
  The configuration fields of the appender. The injected compressor is a function from
  the source path to its return value and the path it stored in its second argument
  (which is empty when the compressor is called).
\<close>

record appender =
  fileName :: string
  maxFileSize :: int
  maxBackupCount :: int
  maxBackupDays :: int
  lockFilePath :: string
  compressFunc :: "(string \<Rightarrow> bool \<times> string) option"

text \<open>
  What the code does to the outside is a trace of events; \<^verbatim>\<open>errno\<close> is a flag that a
  failing system call raises. The outcome of each system call is given by the
  environment, one field per call site.
\<close>

datatype event =
    Rename string string
  | Remove string
  | Unlink string
  | Compress string
  | Cerr string
  | Write

record io_state =
  errno_set :: bool
  trace :: "event list"

definition emit :: "event \<Rightarrow> io_state \<Rightarrow> io_state" where
  "emit e st = st\<lparr>trace := trace st @ [e]\<rparr>"

definition fail_errno :: "io_state \<Rightarrow> io_state" where
  "fail_errno st = st\<lparr>errno_set := True\<rparr>"

text \<open>
  One directory entry as \<^verbatim>\<open>readdir\<close> returns it, with the outcomes of the calls made while
  it is handled: \<open>e_stat\<close> is the \<^verbatim>\<open>stat\<close> of \<^verbatim>\<open>ExistRegularFile\<close> (\<open>None\<close> when it fails,
  else \<^verbatim>\<open>S_ISREG\<close>), \<open>e_mtime\<close> the \<^verbatim>\<open>stat\<close> of \<^verbatim>\<open>GetLastModifiedTimestamp\<close>, \<open>e_rename_ok\<close>
  the \<^verbatim>\<open>rename\<close> of \<^verbatim>\<open>HandleLegacyLogFile\<close>, \<open>e_remove_ok\<close> the \<^verbatim>\<open>remove\<close> of \<^verbatim>\<open>CompressLog\<close>.
\<close>

record dir_entry =
  d_is_reg :: bool
  d_name :: string
  e_stat :: "bool option"
  e_mtime :: "int option"
  e_rename_ok :: bool
  e_remove_ok :: bool

datatype readdir_end = EndOfDirectory | ReaddirFailed

record scan_env =
  opendir_ok :: bool
  entries :: "dir_entry list"
  readdir_last :: readdir_end

record rollover_env =
  ro_close_ok :: bool
  ro_now_name :: int
  ro_rename_ok :: bool
  ro_remove_ok :: bool
  ro_scan :: scan_env
  ro_sort :: "backup_entry list \<Rightarrow> backup_entry list"
  ro_now_retention :: int
  ro_open_fd :: int

record append_env =
  lseek_first :: int
  lock_open_fd :: int
  flock_ok :: bool
  close_fd_ok :: bool
  reopen_fd :: int
  lseek_second :: int
  funlock_ok :: bool
  close_lock_ok :: bool
  roll :: rollover_env

section \<open>Compression bridge\<close>

text \<open>
  \<^verbatim>\<open>CompressLog(log_file_path, compressed_file_path)\<close>: the result is the return value and
  the final content of the out-parameter.
\<close>

definition CompressLog :: "appender \<Rightarrow> bool \<Rightarrow> string \<Rightarrow> io_state \<Rightarrow> (bool \<times> string) \<times> io_state" where
  "CompressLog ap remove_ok log_file_path st =
     (case compressFunc ap of
        None \<Rightarrow> ((True, log_file_path), st)
      | Some f \<Rightarrow>
          let (ok, compressed_file_path) = f log_file_path;
              st1 = emit (Compress log_file_path) st in
          if \<not> ok then
            let st2 = emit (Remove compressed_file_path) (emit (Cerr ''Could not compress log file'') st1);
                st3 = (if remove_ok then st2
                       else emit (Cerr ''Could not remove compressed log file'') (fail_errno st2))
            in ((False, compressed_file_path), st3)
          else
            let st2 = emit (Remove log_file_path) st1;
                st3 = (if remove_ok then st2
                       else emit (Cerr ''Could not remove log file'') (fail_errno st2))
            in ((True, compressed_file_path), st3))"

section \<open>Backup scanner\<close>

definition SplitPathIntoDirAndFile :: "string \<Rightarrow> string \<times> string" where
  "SplitPathIntoDirAndFile file_path =
     (case find_last_of file_path ''/'' of
        None \<Rightarrow> (''.'', file_path)
      | Some pos \<Rightarrow> (substr file_path 0 pos, substr_from file_path (pos + 1)))"

definition ExistRegularFile :: "dir_entry \<Rightarrow> string \<Rightarrow> cpp_exception + bool" where
  "ExistRegularFile ent file_path =
     (if file_path = [] then Inr False
      else case e_stat ent of
        None \<Rightarrow> Inl runtime_error
      | Some is_reg \<Rightarrow> Inr is_reg)"

definition GetLastModifiedTimestamp :: "dir_entry \<Rightarrow> string \<Rightarrow> io_state \<Rightarrow> int \<times> io_state" where
  "GetLastModifiedTimestamp ent file_path st =
     (case e_mtime ent of
        None \<Rightarrow> (- 1, emit (Cerr ''Could not stat file'') (fail_errno st))
      | Some mtime \<Rightarrow> (mtime, st))"

text \<open>
  \<^verbatim>\<open>HandleLegacyLogFile\<close> and \<^verbatim>\<open>HandleBackupLogFile\<close> return their \<^verbatim>\<open>bool\<close> together with the
  out-parameters \<^verbatim>\<open>timestamp\<close> and \<^verbatim>\<open>final_file_path\<close>, or the exception that leaves them.
\<close>

definition HandleLegacyLogFile ::
  "appender \<Rightarrow> zone \<Rightarrow> dir_entry \<Rightarrow> string \<Rightarrow> io_state \<Rightarrow> cpp_exception + ((bool \<times> int \<times> string) \<times> io_state)" where
  "HandleLegacyLogFile ap tz ent file_path st =
     (let (timestamp, st1) = GetLastModifiedTimestamp ent file_path st in
      if timestamp < 0 then
        Inr ((False, timestamp, []), emit (Cerr ''Could not get last modified timestamp'') st1)
      else
        case GetDatetimeStr tz timestamp of
          Inl e \<Rightarrow> Inl e
        | Inr datetime_str \<Rightarrow>
            let new_file_path = fileName ap @ ''.'' @ datetime_str;
                st2 = emit (Rename file_path new_file_path) st1 in
            if \<not> e_rename_ok ent then
              Inr ((False, timestamp, []), emit (Cerr ''Could not rename file'') (fail_errno st2))
            else
              let ((ok, final_file_path), st3) = CompressLog ap (e_remove_ok ent) new_file_path st2 in
              Inr ((True, timestamp, if ok then final_file_path else new_file_path), st3))"

definition HandleBackupLogFile ::
  "appender \<Rightarrow> zone \<Rightarrow> dir_entry \<Rightarrow> string \<Rightarrow> string \<Rightarrow> io_state \<Rightarrow>
     cpp_exception + ((bool \<times> int \<times> string) \<times> io_state)" where
  "HandleBackupLogFile ap tz ent base_dir_path base_file_name st =
     (let file_name = d_name ent in
      if length file_name \<le> length base_file_name
         \<or> substr file_name 0 (length base_file_name) \<noteq> base_file_name
      then Inr ((False, 0, []), st)
      else
        let file_path = base_dir_path @ ''/'' @ file_name in
        case ExistRegularFile ent file_path of
          Inl e \<Rightarrow> Inl e
        | Inr is_reg \<Rightarrow>
            if \<not> is_reg then Inr ((False, 0, []), st)
            else
              case ExtractTimestamp (substr_from file_name (length base_file_name)) of
                Some timestamp \<Rightarrow> Inr ((True, timestamp, file_path), st)
              | None \<Rightarrow>
                  let st1 = emit (Cerr ''Could not extract timestmap from file name'') st in
                  case ExtractIndex (substr_from file_name (length base_file_name)) of
                    Some index \<Rightarrow> HandleLegacyLogFile ap tz ent file_path st1
                  | None \<Rightarrow> Inr ((False, 0, []), emit (Cerr ''Could not extract index'') st1))"

text \<open>The \<^verbatim>\<open>readdir\<close> loop of \<^verbatim>\<open>FilterTimeBasedFilePaths\<close>, over the entries it returns.\<close>

fun readdir_loop ::
  "appender \<Rightarrow> zone \<Rightarrow> string \<Rightarrow> string \<Rightarrow> dir_entry list \<Rightarrow> backup_entry list \<Rightarrow> io_state \<Rightarrow>
     cpp_exception + (backup_entry list \<times> io_state)" where
  "readdir_loop ap tz base_dir_path base_file_name [] res st = Inr (res, st)"
| "readdir_loop ap tz base_dir_path base_file_name (ent # ents) res st =
     (if \<not> d_is_reg ent then readdir_loop ap tz base_dir_path base_file_name ents res st
      else if d_name ent = ''.'' \<or> d_name ent = ''..'' then
        readdir_loop ap tz base_dir_path base_file_name ents res st
      else
        case HandleBackupLogFile ap tz ent base_dir_path base_file_name st of
          Inl e \<Rightarrow> Inl e
        | Inr ((ok, timestamp, file_path), st1) \<Rightarrow>
            readdir_loop ap tz base_dir_path base_file_name ents
              (if ok then res @ [(timestamp, file_path)] else res) st1)"

definition FilterTimeBasedFilePaths ::
  "appender \<Rightarrow> zone \<Rightarrow> scan_env \<Rightarrow> string \<Rightarrow> io_state \<Rightarrow> cpp_exception + (backup_entry list \<times> io_state)" where
  "FilterTimeBasedFilePaths ap tz env base_file_path st =
     (let (base_dir_path, base_file_name) = SplitPathIntoDirAndFile base_file_path in
      if base_file_name = [] then Inr ([], st)
      else if \<not> opendir_ok env then Inr ([], emit (Cerr ''Could not opendir'') (fail_errno st))
      else
        case readdir_loop ap tz base_dir_path base_file_name (entries env) [] (st\<lparr>errno_set := False\<rparr>) of
          Inl e \<Rightarrow> Inl e
        | Inr (res, st1) \<Rightarrow>
            let st2 = (if readdir_last env = ReaddirFailed then fail_errno st1 else st1) in
            if errno_set st2 then Inr ([], emit (Cerr ''Could not readdir'') st2)
            else Inr (res, st2))"

section \<open>Rotation and the appender front-end\<close>

text \<open>
  \<^verbatim>\<open>std::sort\<close> with the comparator on the timestamp is not stable: which order it gives
  to entries of equal timestamp is its own choice. The order is therefore a field of the
  environment, \<open>ro_sort\<close>, and what the standard promises of it is the contract below: the
  result is the argument rearranged, in ascending order of timestamp.
\<close>

definition std_sort_contract :: "(backup_entry list \<Rightarrow> backup_entry list) \<Rightarrow> bool" where
  "std_sort_contract srt = (\<forall>xs. sorted (map fst (srt xs)) \<and> mset (srt xs) = mset xs)"

text \<open>The paths given to \<^verbatim>\<open>unlink\<close> in a trace, in the order of the calls.\<close>

fun unlinked :: "event list \<Rightarrow> string list" where
  "unlinked [] = []"
| "unlinked (Unlink p # es) = p # unlinked es"
| "unlinked (e # es) = unlinked es"

text \<open>
  The first part of \<^verbatim>\<open>rollOver\<close>, up to the compression of the renamed file: the result
  is the state in which the directory is scanned, or the exception of \<^verbatim>\<open>GetDatetimeNowStr\<close>.
\<close>

definition rollOver_rename :: "appender \<Rightarrow> zone \<Rightarrow> rollover_env \<Rightarrow> io_state \<Rightarrow> cpp_exception + io_state" where
  "rollOver_rename ap tz env st =
     (let st1 = (if ro_close_ok env then st else emit (Cerr ''Could not close file'') (fail_errno st)) in
      case GetDatetimeStr tz (ro_now_name env) of
        Inl e \<Rightarrow> Inl e
      | Inr datetime_now_str \<Rightarrow>
          let last_log_file_name = fileName ap @ ''.'' @ datetime_now_str;
              st2 = emit (Rename (fileName ap) last_log_file_name) st1;
              st3 = (if ro_rename_ok env then st2
                     else emit (Cerr ''Could not rename file'') (fail_errno st2));
              (compressed, st4) = CompressLog ap (ro_remove_ok env) last_log_file_name st3
          in Inr st4)"

text \<open>
  \<^verbatim>\<open>rollOver\<close> returns the new \<^verbatim>\<open>_fd\<close>: rename and compress, scan, sort, compute the bound,
  unlink the entries below it, reopen.
\<close>

definition rollOver :: "appender \<Rightarrow> zone \<Rightarrow> rollover_env \<Rightarrow> io_state \<Rightarrow> cpp_exception + (int \<times> io_state)" where
  "rollOver ap tz env st =
     (case rollOver_rename ap tz env st of
        Inl e \<Rightarrow> Inl e
      | Inr st4 \<Rightarrow>
          case FilterTimeBasedFilePaths ap tz (ro_scan env) (fileName ap) st4 of
            Inl e \<Rightarrow> Inl e
          | Inr (paths, st5) \<Rightarrow>
              let time_based_file_paths = ro_sort env paths;
                  lower_bound = retention_lower_bound (maxBackupCount ap) (maxBackupDays ap)
                                  (ro_now_retention env) time_based_file_paths;
                  st6 = foldl (\<lambda>s p. emit (Unlink p) s) st5
                          (unlink_targets time_based_file_paths lower_bound);
                  fd = ro_open_fd env;
                  st7 = (if fd = - 1 then emit (Cerr ''Could not open file'') (fail_errno st6) else st6)
              in Inr (fd, st7))"

text \<open>
  \<^verbatim>\<open>_append\<close>: the argument \<open>fd\<close> is \<^verbatim>\<open>_fd\<close> on entry, the result is \<^verbatim>\<open>_fd\<close> on return, or the
  exception that leaves the function. \<^verbatim>\<open>FileAppender::_append\<close> is the event \<open>Write\<close>.
\<close>

definition locked_section :: "appender \<Rightarrow> zone \<Rightarrow> append_env \<Rightarrow> int \<Rightarrow> io_state \<Rightarrow> cpp_exception + (int \<times> io_state)" where
  "locked_section ap tz env fd st =
     (let st1 = (if fd \<ge> 0 \<and> \<not> close_fd_ok env
                 then emit (Cerr ''Could not close file'') (fail_errno st) else st);
          fd1 = reopen_fd env;
          st2 = (if fd1 = - 1 then emit (Cerr ''Could not open file'') (fail_errno st1) else st1);
          offset = lseek_second env in
      if offset < 0 then Inr (fd1, st2)
      else if offset \<ge> maxFileSize ap then rollOver ap tz (roll env) st2
      else Inr (fd1, st2))"

definition append_event :: "appender \<Rightarrow> zone \<Rightarrow> append_env \<Rightarrow> int \<Rightarrow> io_state \<Rightarrow> cpp_exception + (int \<times> io_state)" where
  "append_event ap tz env fd st =
     (let offset = lseek_first env in
      if offset < 0 then Inr (fd, emit Write st)
      else if offset \<ge> maxFileSize ap then
        let lock_fd = lock_open_fd env in
        if lock_fd < 0 then
          Inr (fd, emit Write (emit (Cerr ''Could not open lock file'') (fail_errno st)))
        else if \<not> flock_ok env then
          let st1 = emit (Cerr ''Could not lock'') (fail_errno st);
              st2 = (if close_lock_ok env then st1
                     else emit (Cerr ''Could not close lock fd'') (fail_errno st1))
          in Inr (fd, emit Write st2)
        else
          case locked_section ap tz env fd st of
            Inl e \<Rightarrow> Inl e
          | Inr (fd1, st1) \<Rightarrow>
              let st2 = (if funlock_ok env then st1
                         else emit (Cerr ''Could not unlock'') (fail_errno st1));
                  st3 = (if close_lock_ok env then st2
                         else emit (Cerr ''Could not close lock fd'') (fail_errno st2))
              in Inr (fd1, emit Write st3)
      else Inr (fd, emit Write st))"

section \<open>Test doubles\<close>

text \<open>
  The compressor of the header's usage note, which stores \<^verbatim>\<open>from + ".gz"\<close> in its second
  argument, once succeeding and once failing after it has named its output.
\<close>

definition gzip_ok :: "string \<Rightarrow> bool \<times> string" where
  "gzip_ok log_path = (True, log_path @ ''.gz'')"

definition gzip_failing :: "string \<Rightarrow> bool \<times> string" where
  "gzip_failing log_path = (False, log_path @ ''.gz'')"

text \<open>An appender on \<open>a.log\<close> with the limits of the repository's test, and a zone at UTC.\<close>

definition test_appender :: "(string \<Rightarrow> bool \<times> string) option \<Rightarrow> appender" where
  "test_appender c =
     \<lparr>fileName = ''a.log'', maxFileSize = 1, maxBackupCount = 3, maxBackupDays = 1,
      lockFilePath = ''./.a.log.lock'', compressFunc = c\<rparr>"

definition utc :: zone where
  "utc t = Some 0"

definition st0 :: io_state where
  "st0 = \<lparr>errno_set = False, trace = []\<rparr>"

text \<open>
  Directory entries: a backup with an ISO-8601 suffix, and a regular file of the log's
  family that is gone when \<^verbatim>\<open>stat\<close> is called on it.
\<close>

definition entry_iso :: dir_entry where
  "entry_iso =
     \<lparr>d_is_reg = True, d_name = ''a.log.20240115T120000Z'', e_stat = Some True,
      e_mtime = Some 1705320000, e_rename_ok = True, e_remove_ok = True\<rparr>"

definition entry_vanished :: dir_entry where
  "entry_vanished =
     \<lparr>d_is_reg = True, d_name = ''a.log.1'', e_stat = None,
      e_mtime = None, e_rename_ok = False, e_remove_ok = False\<rparr>"

text \<open>A scan in which \<^verbatim>\<open>readdir\<close> fails after it has returned one backup.\<close>

definition scan_readdir_fails :: scan_env where
  "scan_readdir_fails = \<lparr>opendir_ok = True, entries = [entry_iso], readdir_last = ReaddirFailed\<rparr>"

text \<open>
  An append at the size limit in which every call succeeds except the \<^verbatim>\<open>stat\<close> of one
  directory entry.
\<close>

definition scan_stat_fails :: scan_env where
  "scan_stat_fails = \<lparr>opendir_ok = True, entries = [entry_iso, entry_vanished], readdir_last = EndOfDirectory\<rparr>"

definition append_env_stat_fails :: append_env where
  "append_env_stat_fails =
     \<lparr>lseek_first = 10, lock_open_fd = 4, flock_ok = True, close_fd_ok = True, reopen_fd = 5,
      lseek_second = 10, funlock_ok = True, close_lock_ok = True,
      roll = \<lparr>ro_close_ok = True, ro_now_name = 1705400000, ro_rename_ok = True, ro_remove_ok = True,
              ro_scan = scan_stat_fails, ro_sort = sort_key fst, ro_now_retention = 1705400000,
              ro_open_fd = 6\<rparr>\<rparr>"

text \<open>The same append with the directory holding the one backup only.\<close>

definition scan_one_backup :: scan_env where
  "scan_one_backup = \<lparr>opendir_ok = True, entries = [entry_iso], readdir_last = EndOfDirectory\<rparr>"

definition append_env_all_ok :: append_env where
  "append_env_all_ok =
     append_env_stat_fails\<lparr>roll := (roll append_env_stat_fails)\<lparr>ro_scan := scan_one_backup\<rparr>\<rparr>"






section \<open>Properties of the suffix recognisers\<close>

lemma drop_split: "drop a s = take n (drop a s) @ drop (a + n) s"
  by (metis append_take_drop_id drop_drop add.commute)

lemma drop_nth: "a < length s \<Longrightarrow> drop a s = s ! a # drop (Suc a) s"
  by (simp add: Cons_nth_drop_Suc)

lemma iso_shape:
  assumes len: "17 \<le> length s" and dot: "s ! 0 = CHR ''.''" and t: "s ! 9 = CHR ''T''"
  shows "s = CHR ''.'' # take 8 (drop 1 s) @ CHR ''T'' # take 6 (drop 10 s) @ s ! 16 # drop 17 s"
    and "take 15 (drop 1 s) = take 8 (drop 1 s) @ CHR ''T'' # take 6 (drop 10 s)"
proof -
  have "s \<noteq> []" using len by auto
  then have a: "s = CHR ''.'' # drop 1 s" using dot by (cases s) simp_all
  have b: "drop 1 s = take 8 (drop 1 s) @ drop 9 s" using drop_split [of 1 s 8] by simp
  have c: "drop 9 s = CHR ''T'' # drop 10 s" using drop_nth [of 9 s] len t by simp
  have d: "drop 10 s = take 6 (drop 10 s) @ drop 16 s" using drop_split [of 10 s 6] by simp
  have e: "drop 16 s = s ! 16 # drop 17 s" using drop_nth [of 16 s] len by simp
  show "s = CHR ''.'' # take 8 (drop 1 s) @ CHR ''T'' # take 6 (drop 10 s) @ s ! 16 # drop 17 s"
    using a b c d e by metis
  have "take 15 (drop 1 s) = take 8 (drop 1 s) @ take 7 (drop 9 s)"
    using take_add [of 8 7 "drop 1 s"] by simp
  also have "take 7 (drop 9 s) = CHR ''T'' # take 6 (drop 10 s)"
    by (subst c) simp
  finally show "take 15 (drop 1 s) = take 8 (drop 1 s) @ CHR ''T'' # take 6 (drop 10 s)" .
qed

lemma iso_sound:
  assumes ne: "ExtractDatetimeIso8601 s \<noteq> []"
  shows "spec_iso8601_suffix s (ExtractDatetimeIso8601 s)"
proof -
  from ne have len: "17 \<le> length s" and dot: "s ! 0 = CHR ''.''"
    and d8: "all_of_isdigit s 1 9" and t: "s ! 9 = CHR ''T''" and d6: "all_of_isdigit s 10 16"
    by (auto simp: ExtractDatetimeIso8601_def split: if_splits)
  note sh = iso_shape [OF len dot t]
  have l8: "length (take 8 (drop 1 s)) = 8" and l6: "length (take 6 (drop 10 s)) = 6"
    using len by simp_all
  have D8: "list_all isdigit (take 8 (drop 1 s))" and D6: "list_all isdigit (take 6 (drop 10 s))"
    using d8 d6 by (simp_all add: all_of_isdigit_def)
  from ne have "s ! 16 = CHR ''Z'' \<or> s ! 16 = CHR ''+'' \<or> s ! 16 = CHR ''-''"
    by (auto simp: ExtractDatetimeIso8601_def Let_def split: if_splits)
  then consider (Z) "s ! 16 = CHR ''Z''" | (S) "s ! 16 \<noteq> CHR ''Z''" "s ! 16 = CHR ''+'' \<or> s ! 16 = CHR ''-''"
    by blast
  then show ?thesis
  proof cases
    case Z
    from ne Z len dot d8 t d6 have tl: "length s = 17 \<or> (length s > 17 \<and> s ! 17 = CHR ''.'')"
      and res: "ExtractDatetimeIso8601 s = take 16 (drop 1 s)"
      by (auto simp: ExtractDatetimeIso8601_def Let_def substr_def split: if_splits)
    have r: "spec_tail (drop 17 s)"
      using tl drop_nth [of 17 s] by (auto simp: spec_tail_def)
    have "take 16 (drop 1 s) = take 15 (drop 1 s) @ take 1 (drop 16 s)"
      using take_add [of 15 1 "drop 1 s"] by simp
    also have "take 1 (drop 16 s) = ''Z''"
      using drop_nth [of 16 s] len Z by simp
    finally have m: "ExtractDatetimeIso8601 s = take 8 (drop 1 s) @ CHR ''T'' # take 6 (drop 10 s) @ ''Z''"
      using res sh(2) by simp
    have s: "s = CHR ''.'' # take 8 (drop 1 s) @ CHR ''T'' # take 6 (drop 10 s) @ ''Z'' @ drop 17 s"
      using sh(1) Z by simp
    show ?thesis
      unfolding spec_iso8601_suffix_def
      apply (rule exI [of _ "take 8 (drop 1 s)"], rule exI [of _ "take 6 (drop 10 s)"],
          rule exI [of _ "''Z''"], rule exI [of _ "drop 17 s"])
      using s m l8 l6 D8 D6 r by (simp add: spec_zone_def)
  next
    case S
    from ne S len dot d8 t d6 have len21: "21 \<le> length s" and z4: "all_of_isdigit s 17 21"
      and tl: "length s = 21 \<or> (length s > 21 \<and> s ! 21 = CHR ''.'')"
      and res: "ExtractDatetimeIso8601 s = take 20 (drop 1 s)"
      by (auto simp: ExtractDatetimeIso8601_def Let_def substr_def split: if_splits)
    have r: "spec_tail (drop 21 s)"
      using tl drop_nth [of 21 s] by (auto simp: spec_tail_def)
    have Z4: "list_all isdigit (take 4 (drop 17 s))" "length (take 4 (drop 17 s)) = 4"
      using z4 len21 by (simp_all add: all_of_isdigit_def)
    have f: "drop 17 s = take 4 (drop 17 s) @ drop 21 s" using drop_split [of 17 s 4] by simp
    have "take 20 (drop 1 s) = take 15 (drop 1 s) @ take 5 (drop 16 s)"
      using take_add [of 15 5 "drop 1 s"] by simp
    also have "take 5 (drop 16 s) = s ! 16 # take 4 (drop 17 s)"
      using drop_nth [of 16 s] len by simp
    finally have m: "ExtractDatetimeIso8601 s =
        take 8 (drop 1 s) @ CHR ''T'' # take 6 (drop 10 s) @ (s ! 16 # take 4 (drop 17 s))"
      using res sh(2) by simp
    have s: "s = CHR ''.'' # take 8 (drop 1 s) @ CHR ''T'' # take 6 (drop 10 s) @
        (s ! 16 # take 4 (drop 17 s)) @ drop 21 s"
      using sh(1) f by simp
    have z: "spec_zone (s ! 16 # take 4 (drop 17 s))"
      using S Z4 by (simp add: spec_zone_def)
    show ?thesis
      unfolding spec_iso8601_suffix_def
      apply (rule exI [of _ "take 8 (drop 1 s)"], rule exI [of _ "take 6 (drop 10 s)"],
          rule exI [of _ "s ! 16 # take 4 (drop 17 s)"], rule exI [of _ "drop 21 s"])
      using s m l8 l6 D8 D6 r z by simp
  qed
qed

lemma iso_complete:
  assumes "spec_iso8601_suffix s m"
  shows "ExtractDatetimeIso8601 s = m \<and> m \<noteq> []"
proof -
  from assms obtain d8 d6 z r where s: "s = CHR ''.'' # d8 @ CHR ''T'' # d6 @ z @ r"
    and l8: "length d8 = 8" and D8: "list_all isdigit d8" and l6: "length d6 = 6"
    and D6: "list_all isdigit d6" and z: "spec_zone z" and r: "spec_tail r"
    and m: "m = d8 @ CHR ''T'' # d6 @ z"
    unfolding spec_iso8601_suffix_def by blast
  from z consider (Z) "z = ''Z''"
    | (S) sg ds where "z = sg # ds" "sg = CHR ''+'' \<or> sg = CHR ''-''" "length ds = 4" "list_all isdigit ds"
    unfolding spec_zone_def by blast
  then show ?thesis
  proof cases
    case Z
    show ?thesis
      using r l8 l6 D8 D6 unfolding s m Z spec_tail_def
      by (auto simp: ExtractDatetimeIso8601_def all_of_isdigit_def substr_def nth_append nth_Cons Let_def)
  next
    case S
    show ?thesis
      using r l8 l6 D8 D6 S(2-) unfolding s m S(1) spec_tail_def
      by (auto simp: ExtractDatetimeIso8601_def all_of_isdigit_def substr_def nth_append nth_Cons Let_def)
  qed
qed

lemma isdigit_range:
  assumes "isdigit c"
  shows "0 \<le> (of_char c :: int) - of_char (CHR ''0'')" and "(of_char c :: int) - of_char (CHR ''0'') \<le> 9"
proof -
  from assms have "(48::nat) \<le> of_char c" and "(of_char c :: nat) \<le> 57"
    by (simp_all add: isdigit_def less_eq_char_def)
  then have "(48::int) \<le> int (of_char c)" and "int (of_char c) \<le> 57" by simp_all
  then show "0 \<le> (of_char c :: int) - of_char (CHR ''0'')"
    and "(of_char c :: int) - of_char (CHR ''0'') \<le> 9"
    by (simp_all add: of_nat_of_char)
qed

lemma digits_end_takeWhile:
  "i \<le> length s \<Longrightarrow> digits_end s i = i + length (takeWhile isdigit (drop i s))"
proof (induction s i rule: digits_end.induct)
  case (1 s i)
  show ?case
  proof (cases "i < length s \<and> CHR ''0'' \<le> s ! i \<and> s ! i \<le> CHR ''9''")
    case True
    then have d: "drop i s = s ! i # drop (Suc i) s" by (simp add: Cons_nth_drop_Suc)
    from True have "digits_end s i = digits_end s (i + 1)" by (subst digits_end.simps) simp
    also have "\<dots> = (i + 1) + length (takeWhile isdigit (drop (i + 1) s))"
      using "1.IH" True by simp
    also have "\<dots> = i + length (takeWhile isdigit (s ! i # drop (Suc i) s))"
      using True by (simp add: isdigit_def)
    finally show ?thesis using d by simp
  next
    case False
    then have e: "digits_end s i = i" by (subst digits_end.simps) (simp only: if_False)
    show ?thesis
    proof (cases "i < length s")
      case True
      then have d: "drop i s = s ! i # drop (Suc i) s" by (simp add: Cons_nth_drop_Suc)
      have "takeWhile isdigit (s ! i # drop (Suc i) s) = []"
        using False True by (simp add: isdigit_def)
      then show ?thesis using e d by simp
    next
      case False
      with "1.prems" e show ?thesis by simp
    qed
  qed
qed

lemma takeWhile_digits_tail:
  "list_all isdigit ds \<Longrightarrow> spec_tail r \<Longrightarrow> takeWhile isdigit (ds @ r) = ds"
  by (induction ds) (auto simp: spec_tail_def isdigit_def less_eq_char_def)

lemma epoch_complete:
  assumes "spec_epoch_suffix s ds"
  shows "ExtractDigits s = ds \<and> ds \<noteq> []"
proof -
  from assms obtain r where s: "s = CHR ''.'' # ds @ r" and l: "8 \<le> length ds"
    and d: "list_all isdigit ds" and r: "spec_tail r"
    unfolding spec_epoch_suffix_def by blast
  have e: "digits_end s 1 = 1 + length ds"
    using digits_end_takeWhile [of 1 s] takeWhile_digits_tail [OF d r] by (simp add: s)
  from l have ne: "ds \<noteq> []" by auto
  from r show ?thesis
    unfolding spec_tail_def
  proof
    assume "r = []"
    then show ?thesis using e l ne by (simp add: ExtractDigits_def s substr_from_def Let_def)
  next
    assume "\<exists>r'. r = CHR ''.'' # r'"
    then obtain r' where "r = CHR ''.'' # r'" ..
    then show ?thesis using e l ne
      by (simp add: ExtractDigits_def s substr_def Let_def nth_append)
  qed
qed

lemma epoch_sound:
  assumes ne: "ExtractDigits s \<noteq> []"
  shows "spec_epoch_suffix s (ExtractDigits s)"
proof -
  from ne have "s \<noteq> []" and dot: "s ! 0 = CHR ''.''"
    by (auto simp: ExtractDigits_def split: if_splits)
  then have len: "1 \<le> length s" by (cases s) simp_all
  from len dot have s: "s = CHR ''.'' # drop 1 s" by (cases s) simp_all
  define ds where "ds = takeWhile isdigit (drop 1 s)"
  define r where "r = dropWhile isdigit (drop 1 s)"
  have e: "digits_end s 1 = 1 + length ds"
    using digits_end_takeWhile [of 1 s] len by (simp add: ds_def)
  have split: "drop 1 s = ds @ r" by (simp add: ds_def r_def)
  have D: "list_all isdigit ds" by (simp add: ds_def list_all_iff) (meson set_takeWhileD)
  from ne have l8: "8 \<le> length ds"
    using len dot e by (auto simp: ExtractDigits_def Let_def split: if_splits)
  have ls: "length s = 1 + length ds + length r"
    using arg_cong [OF split, of length] len by simp
  have rhd: "r \<noteq> [] \<Longrightarrow> s ! (1 + length ds) = hd r"
    by (subst s, subst split) (simp add: nth_append hd_conv_nth)
  have tail: "spec_tail r"
  proof (cases r)
    case Nil
    then show ?thesis by (simp add: spec_tail_def)
  next
    case (Cons a r')
    then have "s ! (1 + length ds) = a" using rhd by simp
    moreover from ne have "s ! (1 + length ds) = CHR ''.''"
      using len dot e l8 ls Cons by (auto simp: ExtractDigits_def Let_def split: if_splits)
    ultimately show ?thesis using Cons by (simp add: spec_tail_def)
  qed
  have "spec_epoch_suffix s ds"
    unfolding spec_epoch_suffix_def using s split l8 D tail by (intro exI [of _ r]) (metis)
  moreover from this have "ExtractDigits s = ds" using epoch_complete by blast
  ultimately show ?thesis by simp
qed

lemma legacy_iff:
  "spec_legacy_suffix s ds \<longleftrightarrow> ExtractDigits1 s = ds \<and> ds \<noteq> []"
proof
  assume "spec_legacy_suffix s ds"
  then show "ExtractDigits1 s = ds \<and> ds \<noteq> []"
    by (auto simp: spec_legacy_suffix_def ExtractDigits1_def substr_from_def)
next
  assume a: "ExtractDigits1 s = ds \<and> ds \<noteq> []"
  then have len: "1 < length s" and dot: "s ! 0 = CHR ''.''" and d: "list_all isdigit (drop 1 s)"
    and ds: "ds = drop 1 s"
    by (auto simp: ExtractDigits1_def substr_from_def split: if_splits)
  from len dot have "s = CHR ''.'' # drop 1 s" by (cases s) simp_all
  then show "spec_legacy_suffix s ds"
    using len d ds by (simp add: spec_legacy_suffix_def)
qed

lemma decimal_fold_mono:
  "list_all isdigit cs \<Longrightarrow> 0 \<le> (a::int) \<Longrightarrow>
     a \<le> foldl (\<lambda>a c. a * 10 + (of_char c - of_char (CHR ''0''))) a cs"
proof (induction cs arbitrary: a)
  case Nil
  then show ?case by simp
next
  case (Cons c cs)
  from Cons.prems have c: "isdigit c" and cs: "list_all isdigit cs" by simp_all
  have "a \<le> a * 10 + (of_char c - of_char (CHR ''0''))"
    using isdigit_range(1) [OF c] Cons.prems(2) by linarith
  moreover have "a * 10 + (of_char c - of_char (CHR ''0''))
      \<le> foldl (\<lambda>a c. a * 10 + (of_char c - of_char (CHR ''0''))) (a * 10 + (of_char c - of_char (CHR ''0''))) cs"
    using Cons.IH [OF cs] isdigit_range(1) [OF c] Cons.prems(2) by simp
  ultimately show ?case by simp
qed

lemma wrap_int64_id: "0 \<le> x \<Longrightarrow> x < 2 ^ 63 \<Longrightarrow> wrap_int64 x = x"
  by (simp add: wrap_int64_def)

lemma ConvertStrToInt64_loop_value:
  "list_all isdigit cs \<Longrightarrow> 0 \<le> (a::int) \<Longrightarrow>
     foldl (\<lambda>a c. a * 10 + (of_char c - of_char (CHR ''0''))) a cs < 2 ^ 63 \<Longrightarrow>
     ConvertStrToInt64_loop a cs = Inr (foldl (\<lambda>a c. a * 10 + (of_char c - of_char (CHR ''0''))) a cs)"
proof (induction cs arbitrary: a)
  case Nil
  then show ?case by simp
next
  case (Cons c cs)
  let ?a' = "a * 10 + (of_char c - of_char (CHR ''0''))"
  from Cons.prems have c: "isdigit c" and cs: "list_all isdigit cs" by simp_all
  have nn: "0 \<le> ?a'" using isdigit_range(1) [OF c] Cons.prems(2) by simp
  have "?a' \<le> foldl (\<lambda>a c. a * 10 + (of_char c - of_char (CHR ''0''))) ?a' cs"
    by (rule decimal_fold_mono [OF cs nn])
  with Cons.prems(3) have lt: "?a' < 2 ^ 63" by simp
  have w: "wrap_int64 ?a' = ?a'" by (rule wrap_int64_id [OF nn lt])
  have "ConvertStrToInt64_loop a (c # cs) = ConvertStrToInt64_loop ?a' cs"
    using w nn by (simp add: Let_def)
  also have "\<dots> = Inr (foldl (\<lambda>a c. a * 10 + (of_char c - of_char (CHR ''0''))) ?a' cs)"
    using Cons.IH [OF cs nn] Cons.prems(3) by simp
  finally show ?case by simp
qed

lemma ConvertStrToInt64_value:
  "ds \<noteq> [] \<Longrightarrow> list_all isdigit ds \<Longrightarrow> decimal_value ds < 2 ^ 63 \<Longrightarrow>
     ConvertStrToInt64 ds = Inr (decimal_value ds)"
  using ConvertStrToInt64_loop_value [of ds 0]
  by (simp add: ConvertStrToInt64_def decimal_value_def)

lemma iso_excludes_digit_rules:
  assumes "ExtractDatetimeIso8601 s \<noteq> []"
  shows "ExtractDigits s = [] \<and> ExtractDigits1 s = []"
proof -
  from iso_sound [OF assms] obtain d8 d6 z r0 where s0: "s = CHR ''.'' # d8 @ CHR ''T'' # d6 @ z @ r0"
    and l8: "length d8 = 8"
    unfolding spec_iso8601_suffix_def by blast
  define rest where "rest = d6 @ z @ r0"
  have s: "s = CHR ''.'' # d8 @ CHR ''T'' # rest" using s0 by (simp add: rest_def)
  have T: "\<not> isdigit (CHR ''T'')" by (simp add: isdigit_def less_eq_char_def)
  have "ExtractDigits s = []"
  proof (rule ccontr)
    assume "ExtractDigits s \<noteq> []"
    from epoch_sound [OF this] obtain ds r where e: "s = CHR ''.'' # ds @ r" and l: "8 \<le> length ds"
      and d: "list_all isdigit ds" and r: "spec_tail r"
      unfolding spec_epoch_suffix_def by blast
    from s e have eq: "d8 @ CHR ''T'' # rest = ds @ r" by simp
    have n: "(d8 @ CHR ''T'' # rest) ! 8 = CHR ''T''" using l8 by (simp add: nth_append)
    show False
    proof (cases "length ds = 8")
      case True
      from eq True l8 have "CHR ''T'' # rest = r" by simp
      with r show False by (auto simp: spec_tail_def)
    next
      case False
      with l have "8 < length ds" by simp
      then have "(ds @ r) ! 8 = ds ! 8" and "ds ! 8 \<in> set ds" by (simp_all add: nth_append)
      with n eq d T show False by (simp add: list_all_iff)
    qed
  qed
  moreover have "ExtractDigits1 s = []"
  proof (rule ccontr)
    assume "ExtractDigits1 s \<noteq> []"
    then have "list_all isdigit (drop 1 s)"
      by (auto simp: ExtractDigits1_def split: if_splits)
    then have "isdigit (CHR ''T'')" by (simp add: s)
    with T show False ..
  qed
  ultimately show ?thesis ..
qed

lemma digits_only_both:
  assumes l: "8 \<le> length ds" and d: "list_all isdigit ds"
  shows "ExtractDigits (CHR ''.'' # ds) = ds" and "ExtractDigits1 (CHR ''.'' # ds) = ds" and "ds \<noteq> []"
proof -
  have "spec_epoch_suffix (CHR ''.'' # ds) ds"
    unfolding spec_epoch_suffix_def using l d by (intro exI [of _ "[]"]) (simp add: spec_tail_def)
  then show "ExtractDigits (CHR ''.'' # ds) = ds" using epoch_complete by blast
  have "spec_legacy_suffix (CHR ''.'' # ds) ds"
    unfolding spec_legacy_suffix_def using l d by simp
  then show "ExtractDigits1 (CHR ''.'' # ds) = ds" using legacy_iff by blast
  show "ds \<noteq> []" using l by auto
qed

lemma both_digit_rules:
  "(ExtractDigits s \<noteq> [] \<and> ExtractDigits1 s \<noteq> []) \<longleftrightarrow>
     (\<exists>ds. s = CHR ''.'' # ds \<and> 8 \<le> length ds \<and> list_all isdigit ds)"
proof
  assume a: "ExtractDigits s \<noteq> [] \<and> ExtractDigits1 s \<noteq> []"
  define A where "A = ExtractDigits s"
  define B where "B = ExtractDigits1 s"
  from a have "spec_epoch_suffix s A" unfolding A_def using epoch_sound by blast
  then obtain r where s1: "s = CHR ''.'' # A @ r" and l8: "8 \<le> length A"
    unfolding spec_epoch_suffix_def by blast
  from a have "spec_legacy_suffix s B" unfolding B_def using legacy_iff by blast
  then have s2: "s = CHR ''.'' # B" and d: "list_all isdigit B"
    unfolding spec_legacy_suffix_def by blast+
  from s1 s2 have "B = A @ r" by simp
  with l8 have "8 \<le> length B" by simp
  with s2 d show "\<exists>ds. s = CHR ''.'' # ds \<and> 8 \<le> length ds \<and> list_all isdigit ds" by blast
next
  assume "\<exists>ds. s = CHR ''.'' # ds \<and> 8 \<le> length ds \<and> list_all isdigit ds"
  then obtain ds where s: "s = CHR ''.'' # ds" and l: "8 \<le> length ds" and d: "list_all isdigit ds"
    by blast
  show "ExtractDigits s \<noteq> [] \<and> ExtractDigits1 s \<noteq> []"
    using digits_only_both [OF l d] by (simp add: s)
qed

lemma both_digit_rules_same:
  assumes "ExtractDigits s \<noteq> []" "ExtractDigits1 s \<noteq> []"
  shows "ExtractDigits1 s = ExtractDigits s"
proof -
  from assms obtain ds where s: "s = CHR ''.'' # ds" and l: "8 \<le> length ds" and d: "list_all isdigit ds"
    using both_digit_rules by blast
  show ?thesis using digits_only_both [OF l d] by (simp add: s)
qed


section \<open>Claims about the suffix rules\<close>

text \<open>
  Claim C6. \<^verbatim>\<open>ExtractDatetimeIso8601\<close> returns a non-empty match exactly when the string is
  a dot, \<open>YYYYMMDDThhmmss\<close>, then \<open>Z\<close> or a sign and four digits, optionally followed by
  a dot and anything; the match is the date-time-with-zone portion without the leading dot.
\<close>

theorem ExtractDatetimeIso8601_recognises:
  "(ExtractDatetimeIso8601 s \<noteq> [] \<longleftrightarrow> (\<exists>m. spec_iso8601_suffix s m)) \<and>
   (\<forall>m. spec_iso8601_suffix s m \<longrightarrow> ExtractDatetimeIso8601 s = m)"
  using iso_sound iso_complete by blast

text \<open>The recogniser on a compressed backup's suffix with a zone offset.\<close>

theorem ExtractDatetimeIso8601_recognises_witness:
  "spec_iso8601_suffix ''.20240115T120000+0530.gz'' ''20240115T120000+0530'' \<and>
   ExtractDatetimeIso8601 ''.20240115T120000+0530.gz'' = ''20240115T120000+0530''"
proof -
  have z: "spec_zone ''+0530''"
    by (simp add: spec_zone_def isdigit_def less_eq_char_def)
  have t: "spec_tail ''.gz''" by (simp add: spec_tail_def)
  have h: "spec_iso8601_suffix ''.20240115T120000+0530.gz'' ''20240115T120000+0530''"
    unfolding spec_iso8601_suffix_def
    apply (rule exI [of _ "''20240115''"], rule exI [of _ "''120000''"],
        rule exI [of _ "''+0530''"], rule exI [of _ "''.gz''"])
    using z t by (simp add: isdigit_def less_eq_char_def)
  with ExtractDatetimeIso8601_recognises [of "''.20240115T120000+0530.gz''"]
  show ?thesis by blast
qed

text \<open>An epoch suffix whose value fits 63 bits gets that value as its timestamp.\<close>

lemma epoch_timestamp:
  assumes m: "spec_epoch_suffix s ds" and v: "decimal_value ds < 2 ^ 63"
  shows "ExtractTimestamp s = Some (decimal_value ds)"
proof -
  from epoch_complete [OF m] have e: "ExtractDigits s = ds" and ne: "ds \<noteq> []" by simp_all
  from m have d: "list_all isdigit ds" and s: "s \<noteq> []" unfolding spec_epoch_suffix_def by auto
  have iso: "ExtractDatetimeIso8601 s = []"
    using iso_excludes_digit_rules [of s] e ne by auto
  show ?thesis
    using iso e ne s ConvertStrToInt64_value [OF ne d v] by (simp add: ExtractTimestamp_def)
qed

text \<open>
  Claim C7, amended. The epoch rule \<^verbatim>\<open>ExtractDigits\<close> matches exactly a dot followed by at
  least eight digits, optionally followed by a dot and anything, and
  \<^verbatim>\<open>ExtractTimestamp\<close> yields the digits' integer value whenever that value is below
  \<open>2^63\<close>; the legacy rule \<^verbatim>\<open>ExtractDigits1\<close> matches exactly a dot followed by one or
  more digits and nothing else.
\<close>

theorem digit_rules_recognise:
  "(ExtractDigits s \<noteq> [] \<longleftrightarrow> (\<exists>ds. spec_epoch_suffix s ds)) \<and>
   (\<forall>ds. spec_epoch_suffix s ds \<longrightarrow>
      ExtractDigits s = ds \<and>
      (decimal_value ds < 2 ^ 63 \<longrightarrow> ExtractTimestamp s = Some (decimal_value ds))) \<and>
   (ExtractDigits1 s \<noteq> [] \<longleftrightarrow> (\<exists>ds. spec_legacy_suffix s ds)) \<and>
   (\<forall>ds. spec_legacy_suffix s ds \<longrightarrow> ExtractDigits1 s = ds)"
proof -
  have a: "ExtractDigits s \<noteq> [] \<longleftrightarrow> (\<exists>ds. spec_epoch_suffix s ds)"
  proof
    assume "ExtractDigits s \<noteq> []"
    then have "spec_epoch_suffix s (ExtractDigits s)" by (rule epoch_sound)
    then show "\<exists>ds. spec_epoch_suffix s ds" ..
  next
    assume "\<exists>ds. spec_epoch_suffix s ds"
    then obtain ds where "spec_epoch_suffix s ds" ..
    from epoch_complete [OF this] show "ExtractDigits s \<noteq> []" by simp
  qed
  have b: "ExtractDigits s = ds \<and>
      (decimal_value ds < 2 ^ 63 \<longrightarrow> ExtractTimestamp s = Some (decimal_value ds))"
    if "spec_epoch_suffix s ds" for ds
    using epoch_complete [OF that] epoch_timestamp [OF that] by simp
  have c: "ExtractDigits1 s \<noteq> [] \<longleftrightarrow> (\<exists>ds. spec_legacy_suffix s ds)"
  proof
    assume "ExtractDigits1 s \<noteq> []"
    then have "spec_legacy_suffix s (ExtractDigits1 s)" by (simp add: legacy_iff)
    then show "\<exists>ds. spec_legacy_suffix s ds" ..
  next
    assume "\<exists>ds. spec_legacy_suffix s ds"
    then obtain ds where "spec_legacy_suffix s ds" ..
    then show "ExtractDigits1 s \<noteq> []" by (simp add: legacy_iff)
  qed
  have d: "ExtractDigits1 s = ds" if "spec_legacy_suffix s ds" for ds
    using that by (simp add: legacy_iff)
  from a b c d show ?thesis by blast
qed

text \<open>The two digit rules on an epoch suffix of a compressed backup and on a legacy index.\<close>

theorem digit_rules_recognise_witness:
  "spec_epoch_suffix ''.1577836800.gz'' ''1577836800'' \<and> ExtractDigits ''.1577836800.gz'' = ''1577836800'' \<and>
   decimal_value ''1577836800'' < 2 ^ 63 \<and> ExtractTimestamp ''.1577836800.gz'' = Some 1577836800 \<and>
   spec_legacy_suffix ''.7'' ''7'' \<and> ExtractDigits1 ''.7'' = ''7''"
proof -
  have e: "spec_epoch_suffix ''.1577836800.gz'' ''1577836800''"
    unfolding spec_epoch_suffix_def
    by (rule exI [of _ "''.gz''"]) (simp add: spec_tail_def isdigit_def less_eq_char_def)
  have v: "decimal_value ''1577836800'' = 1577836800" by (simp add: decimal_value_def)
  have l: "spec_legacy_suffix ''.7'' ''7''"
    by (simp add: spec_legacy_suffix_def isdigit_def less_eq_char_def)
  from digit_rules_recognise [of "''.1577836800.gz''"] e v
  have "ExtractDigits ''.1577836800.gz'' = ''1577836800'' \<and> ExtractTimestamp ''.1577836800.gz'' = Some 1577836800"
    by simp
  moreover from digit_rules_recognise [of "''.7''"] l have "ExtractDigits1 ''.7'' = ''7''" by blast
  ultimately show ?thesis using e v l by simp
qed

text \<open>
  Claim C7 as stated fails: nineteen nines match the epoch rule, and no timestamp is
  yielded, because the conversion throws \<^verbatim>\<open>overflow_error\<close>.
\<close>

theorem epoch_rule_without_timestamp:
  "spec_epoch_suffix ''.9999999999999999999'' ''9999999999999999999'' \<and>
   ExtractDigits ''.9999999999999999999'' = ''9999999999999999999'' \<and>
   ExtractTimestamp ''.9999999999999999999'' = None"
proof -
  have "spec_epoch_suffix ''.9999999999999999999'' ''9999999999999999999''"
    unfolding spec_epoch_suffix_def
    by (rule exI [of _ "[]"]) (simp add: spec_tail_def isdigit_def less_eq_char_def)
  moreover have "ExtractDigits ''.9999999999999999999'' = ''9999999999999999999''" by code_simp
  moreover have "ExtractTimestamp ''.9999999999999999999'' = None" by code_simp
  ultimately show ?thesis by blast
qed

section \<open>Claims about the classifier and the conversions\<close>

text \<open>A suffix classified as legacy is matched by the legacy rule alone.\<close>

lemma legacy_class_only_legacy:
  assumes "classify s = Legacy"
  shows "ExtractDatetimeIso8601 s = [] \<and> ExtractDigits s = [] \<and> ExtractDigits1 s \<noteq> []"
proof -
  from assms have ts: "ExtractTimestamp s = None" and ix: "ExtractIndex s \<noteq> None"
    by (auto simp: classify_def split: if_splits)
  from ix have s: "s \<noteq> []" and d1: "ExtractDigits1 s \<noteq> []"
    and c1: "ConvertStrToInt64 (ExtractDigits1 s) \<noteq> Inl overflow_error \<and>
             ConvertStrToInt64 (ExtractDigits1 s) \<noteq> Inl invalid_argument \<and>
             ConvertStrToInt64 (ExtractDigits1 s) \<noteq> Inl out_of_range \<and>
             ConvertStrToInt64 (ExtractDigits1 s) \<noteq> Inl runtime_error"
    by (auto simp: ExtractIndex_def split: if_splits sum.splits)
  have iso: "ExtractDatetimeIso8601 s = []"
    using iso_excludes_digit_rules [of s] d1 by blast
  have "ExtractDigits s = []"
  proof (rule ccontr)
    assume d: "ExtractDigits s \<noteq> []"
    then have same: "ExtractDigits1 s = ExtractDigits s" using d1 by (rule both_digit_rules_same)
    from ts s iso d obtain e where "ConvertStrToInt64 (ExtractDigits s) = Inl e"
      by (auto simp: ExtractTimestamp_def split: sum.splits)
    with c1 same show False by (cases e) simp_all
  qed
  with iso d1 show ?thesis by simp
qed

text \<open>
  Claim C5, amended. The classifier is a total, deterministic function: every suffix gets
  exactly one of the four classifications, and a suffix classified iso8601, epoch or
  legacy is matched by that rule. The ISO-8601 rule is disjoint from the epoch and the
  legacy rule. The epoch and the legacy rule are not disjoint: both match exactly the
  suffixes made of a dot and at least eight digits, and the rule order resolves the
  overlap, such a suffix being classified epoch or nothing, never legacy.
\<close>

theorem classifier_total_rules_overlap:
  "(\<exists>!c. classify s = c) \<and>
   (classify s = Iso8601 \<longrightarrow>
      ExtractDatetimeIso8601 s \<noteq> [] \<and> ExtractDigits s = [] \<and> ExtractDigits1 s = []) \<and>
   (classify s = Epoch \<longrightarrow> ExtractDatetimeIso8601 s = [] \<and> ExtractDigits s \<noteq> []) \<and>
   (classify s = Legacy \<longrightarrow>
      ExtractDatetimeIso8601 s = [] \<and> ExtractDigits s = [] \<and> ExtractDigits1 s \<noteq> []) \<and>
   (ExtractDatetimeIso8601 s \<noteq> [] \<longrightarrow> ExtractDigits s = [] \<and> ExtractDigits1 s = []) \<and>
   ((ExtractDigits s \<noteq> [] \<and> ExtractDigits1 s \<noteq> []) \<longleftrightarrow>
      (\<exists>ds. s = CHR ''.'' # ds \<and> 8 \<le> length ds \<and> list_all isdigit ds)) \<and>
   (ExtractDigits s \<noteq> [] \<and> ExtractDigits1 s \<noteq> [] \<longrightarrow>
      classify s = Epoch \<or> classify s = Unclassified)"
proof -
  have a: "\<exists>!c. classify s = c" by simp
  have b: "ExtractDatetimeIso8601 s \<noteq> [] \<and> ExtractDigits s = [] \<and> ExtractDigits1 s = []"
    if "classify s = Iso8601"
  proof -
    from that have "ExtractDatetimeIso8601 s \<noteq> []"
      by (auto simp: classify_def split: if_splits)
    then show ?thesis using iso_excludes_digit_rules [of s] by simp
  qed
  have c: "ExtractDatetimeIso8601 s = [] \<and> ExtractDigits s \<noteq> []" if "classify s = Epoch"
    using that by (auto simp: classify_def ExtractTimestamp_def split: if_splits)
  have d: "ExtractDatetimeIso8601 s = [] \<and> ExtractDigits s = [] \<and> ExtractDigits1 s \<noteq> []"
    if "classify s = Legacy"
    using that by (rule legacy_class_only_legacy)
  have e: "ExtractDigits s = [] \<and> ExtractDigits1 s = []" if "ExtractDatetimeIso8601 s \<noteq> []"
    using that by (rule iso_excludes_digit_rules)
  have f: "classify s = Epoch \<or> classify s = Unclassified"
    if "ExtractDigits s \<noteq> [] \<and> ExtractDigits1 s \<noteq> []"
  proof (cases "classify s")
    case Iso8601
    with b that show ?thesis by simp
  next
    case Legacy
    with d that show ?thesis by simp
  qed simp_all
  from a b c d e f both_digit_rules [of s] show ?thesis by blast
qed

text \<open>One suffix of each class; the third is matched by both digit rules.\<close>

theorem classifier_total_rules_overlap_witness:
  "classify ''.20240115T120000Z'' = Iso8601 \<and> ExtractDigits ''.20240115T120000Z'' = [] \<and>
   classify ''.7'' = Legacy \<and> ExtractDigits ''.7'' = [] \<and>
   ExtractDigits ''.12345678'' \<noteq> [] \<and> ExtractDigits1 ''.12345678'' \<noteq> [] \<and>
   classify ''.12345678'' = Epoch \<and> ExtractDatetimeIso8601 ''.12345678'' = []"
proof -
  have i: "classify ''.20240115T120000Z'' = Iso8601" by code_simp
  have l: "classify ''.7'' = Legacy" by code_simp
  have e: "classify ''.12345678'' = Epoch" by code_simp
  have b: "ExtractDigits ''.12345678'' \<noteq> [] \<and> ExtractDigits1 ''.12345678'' \<noteq> []" by code_simp
  from classifier_total_rules_overlap [of "''.20240115T120000Z''"] i
  have "ExtractDigits ''.20240115T120000Z'' = []" by blast
  moreover from classifier_total_rules_overlap [of "''.7''"] l
  have "ExtractDigits ''.7'' = []" by blast
  moreover from classifier_total_rules_overlap [of "''.12345678''"] e
  have "ExtractDatetimeIso8601 ''.12345678'' = []" by blast
  ultimately show ?thesis using i l e b by blast
qed

text \<open>
  Claim C5 as stated fails: the suffix \<open>.12345678\<close> is matched by two distinct rules, the
  epoch rule and the legacy rule.
\<close>

theorem epoch_and_legacy_rules_overlap:
  "ExtractDigits ''.12345678'' \<noteq> [] \<and> ExtractDigits1 ''.12345678'' \<noteq> []"
  by code_simp

text \<open>
  Claim C10 at the failing input. The digits of \<open>2^64\<close> exceed the signed 64-bit range,
  yet the sign test after each step never fires: the last step wraps to 0, so
  \<^verbatim>\<open>ConvertStrToInt64\<close> returns 0 and \<^verbatim>\<open>ExtractTimestamp\<close> accepts the suffix with the
  wrapped-around timestamp 0. The largest signed 64-bit value is converted and its
  successor is rejected, as the claim says.
\<close>

theorem ConvertStrToInt64_wraps_to_zero:
  "decimal_value ''18446744073709551616'' = 2 ^ 64 \<and>
   ConvertStrToInt64 ''18446744073709551616'' = Inr 0 \<and>
   ExtractTimestamp ''.18446744073709551616'' = Some 0 \<and>
   ConvertStrToInt64 ''9223372036854775807'' = Inr (2 ^ 63 - 1) \<and>
   ConvertStrToInt64 ''9223372036854775808'' = Inl overflow_error"
  by code_simp

text \<open>
  Claim C3 at the failing input. For the zone \<open>+0530\<close> the claim's offset is
  \<open>5 * 3600 + 30 * 60\<close>; \<^verbatim>\<open>ParseTimezoneOffset\<close> reads the minutes with
  \<^verbatim>\<open>offsetStr.substr(4, 2)\<close>, which is the last digit alone, and subtracts
  \<open>5 * 3600 + 0 * 60\<close> from \<open>timegm\<close> of the parsed fields.
\<close>

theorem ParseTimezoneOffset_drops_minute_tens:
  "ConvertDatetimeIso8601ToTm ''20240115T120000+0530'' =
     Inr \<lparr>tm_sec = 0, tm_min = 0, tm_hour = 12, tm_mday = 15, tm_mon = 0, tm_year = 124, tm_gmtoff = 0\<rparr> \<and>
   ParseTimezoneOffset ''20240115T120000+0530'' = Inr (5 * 3600 + 0 * 60) \<and>
   ConvertDatetimeIso8601ToTimestamp ''20240115T120000+0530'' =
     Inr (timegm \<lparr>tm_sec = 0, tm_min = 0, tm_hour = 12, tm_mday = 15, tm_mon = 0, tm_year = 124, tm_gmtoff = 0\<rparr>
            - (5 * 3600 + 0 * 60)) \<and>
   ConvertDatetimeIso8601ToTimestamp ''20240115T120000+0530'' \<noteq>
     Inr (timegm \<lparr>tm_sec = 0, tm_min = 0, tm_hour = 12, tm_mday = 15, tm_mon = 0, tm_year = 124, tm_gmtoff = 0\<rparr>
            - (5 * 3600 + 30 * 60))"
  by code_simp

text \<open>
  Claim C4 at the failing input. In a zone 5 hours 30 minutes east of UTC the instant 0
  is encoded as \<open>19700101T053000+0530\<close>, and decoding that string gives 1800, not 0. In
  a zone of whole hours (here 5 hours west) the same instant does come back.
\<close>

theorem round_trip_fails_in_half_hour_zone:
  "ConvertTimeToIso8601 (\<lambda>t. Some 19800) 0 = Inr ''19700101T053000+0530'' \<and>
   ConvertDatetimeIso8601ToTimestamp ''19700101T053000+0530'' = Inr 1800 \<and>
   ConvertTimeToIso8601 (\<lambda>t. Some (- 18000)) 0 = Inr ''19691231T190000-0500'' \<and>
   ConvertDatetimeIso8601ToTimestamp ''19691231T190000-0500'' = Inr 0"
  by code_simp

section \<open>Retention: the bound and the deletions\<close>












section \<open>Retention inside rollOver\<close>

text \<open>Reading the \<^verbatim>\<open>unlink\<close> calls off a trace.\<close>

lemma unlinked_append: "unlinked (xs @ ys) = unlinked xs @ unlinked ys"
  by (induction xs rule: unlinked.induct) simp_all



lemma unlinked_emit [simp]:
  "unlinked (trace (emit (Cerr m) st)) = unlinked (trace st)"
  "unlinked (trace (emit (Rename a b) st)) = unlinked (trace st)"
  "unlinked (trace (emit (Remove a) st)) = unlinked (trace st)"
  "unlinked (trace (emit (Compress a) st)) = unlinked (trace st)"
  by (simp_all add: emit_def unlinked_append)

lemma trace_fail_errno [simp]: "trace (fail_errno st) = trace st"
  by (simp add: fail_errno_def)










text \<open>The stable sort meets the contract of \<^verbatim>\<open>std::sort\<close>.\<close>

lemma sort_key_contract: "std_sort_contract (sort_key fst)"
  by (simp add: std_sort_contract_def)



section \<open>Claims about the compression bridge, the scanner and the front-end\<close>

text \<open>
  Claim C8, amended. With no compressor configured \<^verbatim>\<open>CompressLog\<close> returns \<open>(true, S)\<close>
  and makes no call at all. When the compressor succeeds, the removal of \<open>S\<close> is the one
  call made after it, and \<open>(true, produced_path)\<close> is returned. When the compressor fails,
  the removal of the path the compressor stored is the one call made after it, and the
  result is \<open>false\<close> with the out-parameter still holding the path the compressor
  stored.
\<close>

theorem CompressLog_contract:
  "(compressFunc ap = None \<longrightarrow> CompressLog ap remove_ok S st = ((True, S), st)) \<and>
   (\<forall>f P. compressFunc ap = Some f \<and> f S = (True, P) \<longrightarrow>
      fst (CompressLog ap remove_ok S st) = (True, P) \<and>
      trace (snd (CompressLog ap remove_ok S st)) =
        trace st @ [Compress S, Remove S]
          @ (if remove_ok then [] else [Cerr ''Could not remove log file''])) \<and>
   (\<forall>f P. compressFunc ap = Some f \<and> f S = (False, P) \<longrightarrow>
      fst (CompressLog ap remove_ok S st) = (False, P) \<and>
      trace (snd (CompressLog ap remove_ok S st)) =
        trace st @ [Compress S, Cerr ''Could not compress log file'', Remove P]
          @ (if remove_ok then [] else [Cerr ''Could not remove compressed log file'']))"
  by (auto simp: CompressLog_def emit_def fail_errno_def Let_def)

text \<open>The three cases on the rotated file \<open>a.log.1\<close>.\<close>

theorem CompressLog_contract_witness:
  "CompressLog (test_appender None) True ''a.log.1'' st0 = ((True, ''a.log.1''), st0) \<and>
   fst (CompressLog (test_appender (Some gzip_ok)) True ''a.log.1'' st0) = (True, ''a.log.1.gz'') \<and>
   trace (snd (CompressLog (test_appender (Some gzip_ok)) True ''a.log.1'' st0))
     = [Compress ''a.log.1'', Remove ''a.log.1''] \<and>
   trace (snd (CompressLog (test_appender (Some gzip_failing)) True ''a.log.1'' st0))
     = [Compress ''a.log.1'', Cerr ''Could not compress log file'', Remove ''a.log.1.gz'']"
proof -
  have n: "compressFunc (test_appender None) = None"
    and o: "compressFunc (test_appender (Some gzip_ok)) = Some gzip_ok"
    and k: "compressFunc (test_appender (Some gzip_failing)) = Some gzip_failing"
    by (simp_all add: test_appender_def)
  have ok: "gzip_ok ''a.log.1'' = (True, ''a.log.1.gz'')" by (simp add: gzip_ok_def)
  have ko: "gzip_failing ''a.log.1'' = (False, ''a.log.1.gz'')" by (simp add: gzip_failing_def)
  have t: "trace st0 = []" by (simp add: st0_def)
  from CompressLog_contract [of "test_appender None" True "''a.log.1''" st0] n
  have a: "CompressLog (test_appender None) True ''a.log.1'' st0 = ((True, ''a.log.1''), st0)"
    by simp
  from CompressLog_contract [of "test_appender (Some gzip_ok)" True "''a.log.1''" st0] o ok t
  have b: "fst (CompressLog (test_appender (Some gzip_ok)) True ''a.log.1'' st0) = (True, ''a.log.1.gz'')"
    "trace (snd (CompressLog (test_appender (Some gzip_ok)) True ''a.log.1'' st0))
       = [Compress ''a.log.1'', Remove ''a.log.1'']"
    by simp_all
  from CompressLog_contract [of "test_appender (Some gzip_failing)" True "''a.log.1''" st0] k ko t
  have c: "trace (snd (CompressLog (test_appender (Some gzip_failing)) True ''a.log.1'' st0))
     = [Compress ''a.log.1'', Cerr ''Could not compress log file'', Remove ''a.log.1.gz'']"
    by simp
  from a b c show ?thesis by simp
qed

text \<open>
  Claim C8 as stated fails: after a failing compressor the returned path is the one the
  compressor stored, not the empty string.
\<close>

theorem CompressLog_failure_keeps_path:
  "fst (CompressLog (test_appender (Some gzip_failing)) True ''a.log.1'' st0) = (False, ''a.log.1.gz'') \<and>
   fst (CompressLog (test_appender (Some gzip_failing)) True ''a.log.1'' st0) \<noteq> (False, [])"
  by (simp add: CompressLog_def test_appender_def gzip_failing_def Let_def)

text \<open>
  Claim C9. When the directory enumeration ends on a \<^verbatim>\<open>readdir\<close> error,
  \<^verbatim>\<open>FilterTimeBasedFilePaths\<close> returns no entry: whatever the loop had gathered when the
  error ended it is discarded, and the result is the empty list.
\<close>

theorem scan_discards_on_readdir_failure:
  assumes "readdir_last env = ReaddirFailed"
  shows "(\<forall>res st'. FilterTimeBasedFilePaths ap tz env base st = Inr (res, st') \<longrightarrow> res = []) \<and>
         (\<forall>dir name gathered st1.
            opendir_ok env \<and> SplitPathIntoDirAndFile base = (dir, name) \<and> name \<noteq> [] \<and>
            readdir_loop ap tz dir name (entries env) [] (st\<lparr>errno_set := False\<rparr>) = Inr (gathered, st1)
            \<longrightarrow> FilterTimeBasedFilePaths ap tz env base st
                  = Inr ([], emit (Cerr ''Could not readdir'') (fail_errno st1)))"
proof (intro conjI allI impI)
  fix res st'
  assume "FilterTimeBasedFilePaths ap tz env base st = Inr (res, st')"
  with assms show "res = []"
    by (auto simp: FilterTimeBasedFilePaths_def Let_def fail_errno_def
        split: prod.splits sum.splits if_splits)
next
  fix dir name gathered st1
  assume "opendir_ok env \<and> SplitPathIntoDirAndFile base = (dir, name) \<and> name \<noteq> [] \<and>
    readdir_loop ap tz dir name (entries env) [] (st\<lparr>errno_set := False\<rparr>) = Inr (gathered, st1)"
  with assms show "FilterTimeBasedFilePaths ap tz env base st
      = Inr ([], emit (Cerr ''Could not readdir'') (fail_errno st1))"
    by (simp add: FilterTimeBasedFilePaths_def Let_def fail_errno_def)
qed

text \<open>A scan that has gathered one backup when \<^verbatim>\<open>readdir\<close> fails returns nothing.\<close>

theorem scan_discards_on_readdir_failure_witness:
  "readdir_last scan_readdir_fails = ReaddirFailed \<and>
   readdir_loop (test_appender None) utc ''.'' ''a.log'' (entries scan_readdir_fails) []
       (st0\<lparr>errno_set := False\<rparr>)
     = Inr ([(1705320000, ''./a.log.20240115T120000Z'')], st0) \<and>
   FilterTimeBasedFilePaths (test_appender None) utc scan_readdir_fails ''a.log'' st0
     = Inr ([], \<lparr>errno_set = True, trace = [Cerr ''Could not readdir'']\<rparr>)"
proof -
  have h: "readdir_last scan_readdir_fails = ReaddirFailed" by (simp add: scan_readdir_fails_def)
  have o: "opendir_ok scan_readdir_fails" by (simp add: scan_readdir_fails_def)
  have s: "SplitPathIntoDirAndFile ''a.log'' = (''.'', ''a.log'')" by code_simp
  have l: "readdir_loop (test_appender None) utc ''.'' ''a.log'' (entries scan_readdir_fails) []
       (st0\<lparr>errno_set := False\<rparr>) = Inr ([(1705320000, ''./a.log.20240115T120000Z'')], st0)"
    by code_simp
  from scan_discards_on_readdir_failure [OF h, of "test_appender None" utc "''a.log''" st0] o s l
  have "FilterTimeBasedFilePaths (test_appender None) utc scan_readdir_fails ''a.log'' st0
      = Inr ([], emit (Cerr ''Could not readdir'') (fail_errno st0))"
    by blast
  then show ?thesis using h l by (simp add: emit_def fail_errno_def st0_def)
qed

text \<open>
  Claim C2 at the failing input. The file is at its size limit, the lock is taken, and
  the directory holds a regular file \<open>a.log.1\<close> whose \<^verbatim>\<open>stat\<close> fails (it was removed after
  \<^verbatim>\<open>readdir\<close> returned it): \<^verbatim>\<open>ExistRegularFile\<close> throws, nothing on the way up catches, and
  \<^verbatim>\<open>_append\<close> is left by the exception before the write is delegated. Without that
  entry the same append rotates the file and delegates the write.
\<close>

theorem append_raises_when_stat_fails:
  "ExistRegularFile entry_vanished ''./a.log.1'' = Inl runtime_error \<and>
   append_event (test_appender None) utc append_env_stat_fails 3 st0 = Inl runtime_error \<and>
   append_event (test_appender None) utc append_env_all_ok 3 st0
     = Inr (6, \<lparr>errno_set = False,
                  trace = [Rename ''a.log'' ''a.log.20240116T101320+0000'', Write]\<rparr>)"
  by code_simp

end
